theory Spec2Isabelle
  imports Complex_Main "HOL-Library.Sublist" "HOL-Library.AList"
begin

section \<open>Values, exceptions and the Polynomial class\<close>

text \<open>
  The class \<open>Polynomial\<close> of \<open>polynomial.py\<close> has two fields, \<open>_coefficients\<close> and
  \<open>_var\<close>. A coefficient is a Python \<open>int\<close> or \<open>float\<close>; its value is modelled as a
  \<open>real\<close>: integer arithmetic is exact, Python compares an \<open>int\<close> and a \<open>float\<close> by
  value, and the rounding of a \<open>float\<close> is not part of the model.

  Names: a method \<open>__op__\<close> of the class is \<open>Polynomial_op\<close> here, and its branch for
  a Polynomial operand \<open>op_Polynomial\<close>; a helper \<open>_name\<close> is \<open>name\<close>; a built-in of
  Python is \<open>py_name\<close>.
\<close>

record polynomial =
  coefficients :: "real list"
  var :: string

text \<open>The operands the operators of the class can receive.\<close>

datatype pyobj = PyInt int | PyFloat real | PyStr string | PyPoly polynomial

text \<open>
  The exceptions of \<open>exceptions.py\<close> (\<open>PolynomialTypeError\<close> carries the operation and
  the name of the operand's type) and the built-in exceptions the code can raise.
\<close>

datatype exn =
    PolynomialParseError string
  | PolynomialTypeError string string
  | PolynomialDomainError string
  | ValueError
  | ZeroDivisionError
  | IndexError
  | TypeError

fun type_name :: "pyobj \<Rightarrow> string" where
  "type_name (PyInt _) = ''int''"
| "type_name (PyFloat _) = ''float''"
| "type_name (PyStr _) = ''str''"
| "type_name (PyPoly _) = ''Polynomial''"

subsection \<open>The helpers of the constructor\<close>

text \<open>
  Modelled from the spec: \<open>Polynomial._is_numeric\<close> is called by the operators and is
  not in the source files. The spec has every operator accept "a real scalar": an \<open>int\<close> or
  a \<open>float\<close>.
\<close>

fun is_numeric :: "pyobj \<Rightarrow> bool" where
  "is_numeric (PyInt _) = True"
| "is_numeric (PyFloat _) = True"
| "is_numeric _ = False"

text \<open>The value of a scalar operand.\<close>

fun num_val :: "pyobj \<Rightarrow> real" where
  "num_val (PyInt i) = real_of_int i"
| "num_val (PyFloat r) = r"
| "num_val _ = 0"

text \<open>
  Modelled from the spec: \<open>Polynomial._strip_leading_zeros\<close> is called by \<open>__init__\<close> and
  is not in the source files. The spec: "Strips trailing zero coefficients above degree 0
  before storing". The coefficient of degree 0 is kept whatever it is; the zeros at the
  end of the rest are dropped. The spec says nothing of a call with no coefficient, where
  nothing is there to strip.
\<close>

definition strip_leading_zeros :: "real list \<Rightarrow> real list" where
  "strip_leading_zeros args =
     (case args of
        [] \<Rightarrow> []
      | c # cs \<Rightarrow> c # rev (dropWhile (\<lambda>x. x = 0) (rev cs)))"

text \<open>
  Modelled from the spec: \<open>Polynomial._clean\<close> is called by \<open>__init__\<close> and is not in the
  source files, and the spec gives it no effect on the value of a coefficient.
\<close>

definition clean :: "real list \<Rightarrow> real list" where
  "clean cs = cs"

text \<open>
  Modelled from the spec: \<open>Polynomial._is_valid_coefficients\<close> is called by \<open>__init__\<close> and
  is not in the source files. The spec: "Validates every coefficient is numeric".
\<close>

definition is_valid_coefficients :: "pyobj list \<Rightarrow> bool" where
  "is_valid_coefficients cs = list_all is_numeric cs"

text \<open>
  \<open>Polynomial.__init__\<close>, called with numbers: every call the class itself makes passes
  computed numbers, and then the check of \<open>_is_valid_coefficients\<close> passes.
\<close>

definition Polynomial :: "real list \<Rightarrow> string \<Rightarrow> polynomial" where
  "Polynomial args v = \<lparr>coefficients = clean (strip_leading_zeros args), var = v\<rparr>"

text \<open>
  \<open>Polynomial.__init__\<close>, called by a client with any objects: \<open>ValueError\<close> unless the
  stored coefficients are numbers. An argument that is no number is not a zero and stays
  in the stored sequence, so the check of the arguments is the check of the source.
\<close>

definition Polynomial_init :: "pyobj list \<Rightarrow> string \<Rightarrow> exn + polynomial" where
  "Polynomial_init args v =
     (if is_valid_coefficients args then Inr (Polynomial (map num_val args) v)
      else Inl ValueError)"

text \<open>\<open>__len__\<close> and the property \<open>degree\<close>.\<close>

definition Polynomial_len :: "polynomial \<Rightarrow> nat" where
  "Polynomial_len P = length (coefficients P)"

definition degree :: "polynomial \<Rightarrow> int" where
  "degree P = int (Polynomial_len P) - 1"

text \<open>
  The canonical form of the spec: the sequence is not empty, and its last coefficient is
  not zero unless the sequence is \<open>[0]\<close>.
\<close>

definition canonical :: "polynomial \<Rightarrow> bool" where
  "canonical P \<longleftrightarrow>
     coefficients P \<noteq> [] \<and> (last (coefficients P) \<noteq> 0 \<or> coefficients P = [0])"

subsection \<open>Equality\<close>

text \<open>
  \<open>__eq__\<close>: a number is compared with \<open>self.coefficients[0]\<close>, a polynomial by the
  coefficient sequences, anything else is unequal. Indexing an empty sequence raises.
\<close>

definition Polynomial_eq :: "polynomial \<Rightarrow> pyobj \<Rightarrow> exn + bool" where
  "Polynomial_eq P other =
     (if is_numeric other then
        (case coefficients P of
           [] \<Rightarrow> Inl IndexError
         | c # _ \<Rightarrow> Inr (c = num_val other))
      else
        (case other of
           PyPoly Q \<Rightarrow> Inr (coefficients P = coefficients Q)
         | _ \<Rightarrow> Inr False))"

subsection \<open>Addition, negation, subtraction\<close>

text \<open>
  The branch of \<open>__add__\<close> for a Polynomial operand. \<open>sorted([self, other], key=len)\<close>
  is stable: \<open>self\<close> is the shorter one unless \<open>other\<close> is strictly shorter. The
  shorter sequence gets \<open>diff\<close> zeros appended, and \<open>zip\<close> stops at the shorter of its
  two arguments. The result carries the label of \<open>self\<close>. (The source appends a list,
  \<open>[0] * diff\<close>, to \<open>coefficients\<close>: the stored sequence is taken to be a list.)
\<close>

definition add_Polynomial :: "polynomial \<Rightarrow> polynomial \<Rightarrow> polynomial" where
  "add_Polynomial P Q =
     (let shorter = (if Polynomial_len Q < Polynomial_len P then Q else P);
          longer = (if Polynomial_len Q < Polynomial_len P then P else Q);
          diff = nat \<bar>int (Polynomial_len P) - int (Polynomial_len Q)\<bar>;
          shorter_coefficients = coefficients shorter @ replicate diff 0
      in Polynomial
           (map (\<lambda>(co1, co2). co1 + co2) (zip shorter_coefficients (coefficients longer)))
           (var P))"

text \<open>
  \<open>__add__\<close>: a number is added to \<open>self.coefficients[0]\<close> and the new Polynomial gets
  the default label; a Polynomial goes to the branch above; anything else raises
  \<open>PolynomialTypeError("add", other)\<close>.
\<close>

definition Polynomial_add :: "polynomial \<Rightarrow> pyobj \<Rightarrow> exn + polynomial" where
  "Polynomial_add P other =
     (if is_numeric other then
        (case coefficients P of
           [] \<Rightarrow> Inl IndexError
         | c # cs \<Rightarrow> Inr (Polynomial ((c + num_val other) # cs) ''x''))
      else
        (case other of
           PyPoly Q \<Rightarrow> Inr (add_Polynomial P Q)
         | _ \<Rightarrow> Inl (PolynomialTypeError ''add'' (type_name other))))"

text \<open>\<open>__radd__\<close>: \<open>self + other\<close>.\<close>

definition Polynomial_radd :: "polynomial \<Rightarrow> pyobj \<Rightarrow> exn + polynomial" where
  "Polynomial_radd P other = Polynomial_add P other"

text \<open>\<open>__neg__\<close>.\<close>

definition Polynomial_neg :: "polynomial \<Rightarrow> polynomial" where
  "Polynomial_neg P = Polynomial (map (\<lambda>x. - x) (coefficients P)) (var P)"

text \<open>
  \<open>__sub__\<close>: \<open>self + -other\<close>. Python's unary minus negates a number, calls \<open>__neg__\<close>
  on a Polynomial and raises \<open>TypeError\<close> on a string.
\<close>

fun py_neg :: "pyobj \<Rightarrow> exn + pyobj" where
  "py_neg (PyInt i) = Inr (PyInt (- i))"
| "py_neg (PyFloat r) = Inr (PyFloat (- r))"
| "py_neg (PyPoly Q) = Inr (PyPoly (Polynomial_neg Q))"
| "py_neg (PyStr _) = Inl TypeError"

definition Polynomial_sub :: "polynomial \<Rightarrow> pyobj \<Rightarrow> exn + polynomial" where
  "Polynomial_sub P other =
     (case py_neg other of
        Inl e \<Rightarrow> Inl e
      | Inr negated \<Rightarrow> Polynomial_add P negated)"

subsection \<open>Multiplication, division, power\<close>

text \<open>
  The branch of \<open>__mul__\<close> for a Polynomial operand: the two nested loops add
  \<open>self.coefficients[i] * other.coefficients[j]\<close> to \<open>new_coefficients[i + j]\<close>, on a
  list of \<open>len(self) + len(other) - 1\<close> zeros (no zeros when that number is not
  positive).
\<close>

definition mul_inner :: "real list \<Rightarrow> real list \<Rightarrow> nat \<Rightarrow> real list \<Rightarrow> real list" where
  "mul_inner a b i new_coefficients =
     fold (\<lambda>j acc. acc[i + j := acc ! (i + j) + a ! i * b ! j]) [0..<length b] new_coefficients"

definition mul_coefficients :: "real list \<Rightarrow> real list \<Rightarrow> real list" where
  "mul_coefficients a b =
     fold (mul_inner a b) [0..<length a] (replicate (length a + length b - 1) 0)"

definition mul_Polynomial :: "polynomial \<Rightarrow> polynomial \<Rightarrow> polynomial" where
  "mul_Polynomial P Q =
     Polynomial (mul_coefficients (coefficients P) (coefficients Q)) (var P)"

text \<open>The branch of \<open>__mul__\<close> for a number.\<close>

definition mul_scalar :: "polynomial \<Rightarrow> real \<Rightarrow> polynomial" where
  "mul_scalar P s = Polynomial (map (\<lambda>co. co * s) (coefficients P)) (var P)"

definition Polynomial_mul :: "polynomial \<Rightarrow> pyobj \<Rightarrow> exn + polynomial" where
  "Polynomial_mul P other =
     (if is_numeric other then Inr (mul_scalar P (num_val other))
      else
        (case other of
           PyPoly Q \<Rightarrow> Inr (mul_Polynomial P Q)
         | _ \<Rightarrow> Inl (PolynomialTypeError ''multiply'' (type_name other))))"

text \<open>\<open>__rmul__\<close>: \<open>self * other\<close>.\<close>

definition Polynomial_rmul :: "polynomial \<Rightarrow> pyobj \<Rightarrow> exn + polynomial" where
  "Polynomial_rmul P other = Polynomial_mul P other"

text \<open>
  \<open>__truediv__\<close>: every coefficient is divided by the number with Python's \<open>/\<close>, which
  raises \<open>ZeroDivisionError\<close> when the divisor is zero, for \<open>int\<close> and for \<open>float\<close>. The
  source has no check of its own; the first division of the comprehension raises (a
  sequence with no coefficient divides nothing).
\<close>

definition Polynomial_truediv :: "polynomial \<Rightarrow> pyobj \<Rightarrow> exn + polynomial" where
  "Polynomial_truediv P other =
     (if is_numeric other then
        (if num_val other = 0 \<and> coefficients P \<noteq> [] then Inl ZeroDivisionError
         else Inr (Polynomial (map (\<lambda>co. co / num_val other) (coefficients P)) (var P)))
      else Inl (PolynomialTypeError ''divide'' (type_name other)))"

text \<open>
  \<open>__pow__\<close>: anything but an \<open>int\<close>, and a negative \<open>int\<close>, raises
  \<open>PolynomialDomainError\<close>; otherwise \<open>result *= self\<close> runs \<open>n\<close> times from
  \<open>Polynomial(1, var=self.var)\<close>. The class has no \<open>__imul__\<close>, so \<open>result *= self\<close> is
  \<open>result = result * self\<close>, the Polynomial branch of \<open>__mul__\<close>.
\<close>

fun pow_loop :: "nat \<Rightarrow> polynomial \<Rightarrow> polynomial \<Rightarrow> polynomial" where
  "pow_loop 0 P result = result"
| "pow_loop (Suc k) P result = pow_loop k P (mul_Polynomial result P)"

definition Polynomial_pow :: "polynomial \<Rightarrow> pyobj \<Rightarrow> exn + polynomial" where
  "Polynomial_pow P n =
     (case n of
        PyInt k \<Rightarrow>
          (if k < 0 then Inl (PolynomialDomainError ''Cannot raise polynomial to negative power'')
           else Inr (pow_loop (nat k) P (Polynomial [1] (var P))))
      | _ \<Rightarrow> Inl (PolynomialDomainError ''Cannot raise polynomial to negative power''))"

subsection \<open>Evaluation, copy, calculus, composition, roots\<close>

definition evaluate :: "polynomial \<Rightarrow> real \<Rightarrow> real" where
  "evaluate P n =
     sum_list (map (\<lambda>i. coefficients P ! i * n ^ i) [0..<Polynomial_len P])"

definition copy :: "polynomial \<Rightarrow> polynomial" where
  "copy P = Polynomial (coefficients P) (var P)"

text \<open>
  \<open>derivative\<close>: a sequence of length 1 gives \<open>Polynomial(0)\<close>, with the default label;
  otherwise \<open>[i * co for i, co in enumerate(self.coefficients)][1:]\<close>.
\<close>

definition derivative :: "polynomial \<Rightarrow> polynomial" where
  "derivative P =
     (if length (coefficients P) = 1 then Polynomial [0] ''x''
      else Polynomial
             (tl (map (\<lambda>(i, co). real i * co) (List.enumerate 0 (coefficients P))))
             (var P))"

text \<open>
  \<open>integral\<close>: the constant, then \<open>self.coefficients[i] / (i + 1)\<close> for every index; the
  divisor is never zero.
\<close>

definition integral :: "polynomial \<Rightarrow> real \<Rightarrow> polynomial" where
  "integral P constant =
     Polynomial
       (constant # map (\<lambda>i. coefficients P ! i / (real i + 1)) [0..<length (coefficients P)])
       (var P)"

text \<open>
  \<open>compose\<close>: \<open>result += self.coefficients[i] * other**i\<close> for every index, from
  \<open>Polynomial(0, var=self.var)\<close>. The number times the Polynomial goes through
  \<open>__rmul__\<close> to the scalar branch of \<open>__mul__\<close>, and \<open>+=\<close> to the Polynomial branch of
  \<open>__add__\<close>.
\<close>

definition compose_step :: "polynomial \<Rightarrow> polynomial \<Rightarrow> nat \<Rightarrow> polynomial \<Rightarrow> polynomial" where
  "compose_step P Q i result =
     add_Polynomial result
       (mul_scalar (pow_loop i Q (Polynomial [1] (var Q))) (coefficients P ! i))"

definition compose_Polynomial :: "polynomial \<Rightarrow> polynomial \<Rightarrow> polynomial" where
  "compose_Polynomial P Q =
     fold (compose_step P Q) [0..<length (coefficients P)] (Polynomial [0] (var P))"

definition compose :: "polynomial \<Rightarrow> pyobj \<Rightarrow> exn + polynomial" where
  "compose P other =
     (case other of
        PyPoly Q \<Rightarrow> Inr (compose_Polynomial P Q)
      | _ \<Rightarrow> Inl (PolynomialTypeError ''compose'' (type_name other)))"

text \<open>\<open>from_roots\<close>: \<open>result *= Polynomial(-root, 1, var=var)\<close> for every root.\<close>

definition from_roots :: "real list \<Rightarrow> string \<Rightarrow> polynomial" where
  "from_roots args v =
     fold (\<lambda>root result. mul_Polynomial result (Polynomial [- root, 1] v)) args
       (Polynomial [1] v)"

section \<open>The addition of the spec\<close>

text \<open>
  The spec's words for \<open>P + Q\<close>: "pad the shorter coefficient sequence with trailing
  zeros to match the longer one's length, then add element-wise". This definition follows
  those words; it is compared with \<open>add_Polynomial\<close>, which follows the source.
\<close>

definition pad_to :: "nat \<Rightarrow> real list \<Rightarrow> real list" where
  "pad_to n cs = cs @ replicate (n - length cs) 0"

definition spec_add_coefficients :: "real list \<Rightarrow> real list \<Rightarrow> real list" where
  "spec_add_coefficients a b =
     (let n = max (length a) (length b)
      in map (\<lambda>(x, y). x + y) (zip (pad_to n a) (pad_to n b)))"

section \<open>Rendering\<close>

text \<open>Python's \<open>str\<close> of a non-negative \<open>int\<close>: its decimal digits.\<close>

definition digit_char :: "nat \<Rightarrow> char" where
  "digit_char d = ''0123456789'' ! d"

fun str_nat :: "nat \<Rightarrow> string" where
  "str_nat n = (if n < 10 then [digit_char n] else str_nat (n div 10) @ [digit_char (n mod 10)])"

declare str_nat.simps [simp del]

text \<open>
  \<open>__str__\<close>. One step of the loop, on the text so far and the flag \<open>nonzero_found\<close>.
  The f-strings format the magnitude \<open>abs(self.coefficients[i])\<close> with Python's \<open>str\<close>
  of a number, which depends on whether the coefficient is an \<open>int\<close> or a \<open>float\<close>; the
  model takes that formatting as the parameter \<open>fmt\<close>. The exponent is an \<open>int\<close>.
\<close>

definition str_step ::
  "(real \<Rightarrow> string) \<Rightarrow> polynomial \<Rightarrow> nat \<Rightarrow> string \<times> bool \<Rightarrow> string \<times> bool" where
  "str_step fmt P i st =
     (let result = fst st; nonzero_found = snd st; c = coefficients P ! i
      in if c = 0 then st
         else
           let plus = (if \<not> nonzero_found then (if c \<ge> 0 then '''' else ''-'')
                       else if c \<ge> 0 then '' + ''
                       else '' - '');
               coefficient = (if \<bar>c\<bar> \<noteq> 1 \<or> i = 0 then fmt \<bar>c\<bar> else '''')
           in (if i = 0 then result @ plus @ coefficient
               else if i = 1 then result @ plus @ coefficient @ var P
               else result @ plus @ coefficient @ var P @ ''^'' @ str_nat i,
               True))"

definition Polynomial_str :: "(real \<Rightarrow> string) \<Rightarrow> polynomial \<Rightarrow> string" where
  "Polynomial_str fmt P =
     (let result = fst (fold (str_step fmt P) [0..<length (coefficients P)] ('''', False))
      in if result = '''' then ''0'' else result)"

text \<open>
  The formatting of a coefficient that is an \<open>int\<close>, as in \<open>Polynomial(2, -3, 1)\<close>: the
  magnitude is a non-negative \<open>int\<close>.
\<close>

definition str_int_magnitude :: "real \<Rightarrow> string" where
  "str_int_magnitude r = str_nat (nat \<lfloor>r\<rfloor>)"

text \<open>
  The rendering in the spec's words: the terms with a nonzero coefficient, from the lowest
  degree to the highest. A term shows its magnitude unless that is 1 at a degree of 1 or
  more; degree 0 shows the magnitude alone, degree 1 adds the variable, a higher degree
  the variable, a caret and the degree. The first term has a bare minus when negative;
  every later one has its sign in the separator.
\<close>

definition spec_term :: "(real \<Rightarrow> string) \<Rightarrow> string \<Rightarrow> nat \<times> real \<Rightarrow> string" where
  "spec_term fmt v t =
     (if \<bar>snd t\<bar> = 1 \<and> 1 \<le> fst t then '''' else fmt \<bar>snd t\<bar>)
     @ (if fst t = 0 then '''' else if fst t = 1 then v else v @ ''^'' @ str_nat (fst t))"

definition spec_first :: "(real \<Rightarrow> string) \<Rightarrow> string \<Rightarrow> nat \<times> real \<Rightarrow> string" where
  "spec_first fmt v t = (if snd t < 0 then ''-'' else '''') @ spec_term fmt v t"

definition spec_later :: "(real \<Rightarrow> string) \<Rightarrow> string \<Rightarrow> nat \<times> real \<Rightarrow> string" where
  "spec_later fmt v t = (if snd t < 0 then '' - '' else '' + '') @ spec_term fmt v t"

definition nonzero_terms :: "real list \<Rightarrow> (nat \<times> real) list" where
  "nonzero_terms cs = filter (\<lambda>t. snd t \<noteq> 0) (List.enumerate 0 cs)"

definition spec_terms_text :: "(real \<Rightarrow> string) \<Rightarrow> string \<Rightarrow> (nat \<times> real) list \<Rightarrow> string" where
  "spec_terms_text fmt v ts =
     (case ts of
        [] \<Rightarrow> ''''
      | t # later \<Rightarrow> spec_first fmt v t @ concat (map (spec_later fmt v) later))"

section \<open>Python's string methods and number parsing\<close>

text \<open>
  \<open>str.replace(old, new)\<close> for a non-empty \<open>old\<close>: the occurrences are replaced from
  left to right without overlap. (The source calls it with the constants \<open>" "\<close>,
  \<open>"+-"\<close>, \<open>"-"\<close> and \<open>"_"\<close> only.)
\<close>

function py_replace :: "string \<Rightarrow> string \<Rightarrow> string \<Rightarrow> string" where
  "py_replace old new [] = []"
| "py_replace old new (c # s) =
     (if old \<noteq> [] \<and> prefix old (c # s)
      then new @ py_replace old new (drop (length old) (c # s))
      else c # py_replace old new s)"
  by pat_completeness auto
termination
  by (relation "measure (\<lambda>(old, new, s). length s)") auto

text \<open>
  \<open>str.split(sep)\<close> for a non-empty \<open>sep\<close>: the pieces between the occurrences of
  \<open>sep\<close>, found from left to right; always at least one piece. \<open>cur\<close> is the piece
  being read. (The source splits on \<open>"+"\<close> and on the variable followed by a caret.)
\<close>

function split_from :: "string \<Rightarrow> string \<Rightarrow> string \<Rightarrow> string list" where
  "split_from sep cur [] = [cur]"
| "split_from sep cur (c # s) =
     (if sep \<noteq> [] \<and> prefix sep (c # s)
      then cur # split_from sep [] (drop (length sep) (c # s))
      else split_from sep (cur @ [c]) s)"
  by pat_completeness auto
termination
  by (relation "measure (\<lambda>(sep, cur, s). length s)") auto

definition py_split :: "string \<Rightarrow> string \<Rightarrow> string list" where
  "py_split sep s = split_from sep [] s"

text \<open>
  Python's \<open>int(s)\<close> and \<open>float(s)\<close> on an ASCII string, as far as the value is a
  number: white space around the text is ignored; then an optional sign; then, for
  \<open>int\<close>, decimal digits, and for \<open>float\<close>, digits with an optional point and an optional
  exponent, with digits on at least one side of the point. Single underscores may stand
  between digits. \<open>None\<close> is the \<open>ValueError\<close>. The value of \<open>float\<close> is the exact
  decimal value, not rounded. Python's \<open>float\<close> also accepts \<open>inf\<close>, \<open>infinity\<close> and
  \<open>nan\<close>; they are no real numbers and terms with them are outside this model, which
  has no value for them.
\<close>

definition is_space :: "char \<Rightarrow> bool" where
  "is_space c \<longleftrightarrow>
     c \<in> set [CHR '' '', CHR 0x09, CHR 0x0A, CHR 0x0B, CHR 0x0C, CHR 0x0D]"

definition py_strip :: "string \<Rightarrow> string" where
  "py_strip s = rev (dropWhile is_space (rev (dropWhile is_space s)))"

definition is_digit :: "char \<Rightarrow> bool" where
  "is_digit c \<longleftrightarrow> c \<in> set ''0123456789''"

definition digit_value :: "char \<Rightarrow> nat" where
  "digit_value c = length (takeWhile (\<lambda>d. d \<noteq> c) ''0123456789'')"

text \<open>The digits of a digit group, without its underscores; \<open>None\<close> if it is not one.\<close>

fun digits_from :: "string \<Rightarrow> string option" where
  "digits_from [] = Some []"
| "digits_from [c] = (if is_digit c then Some [c] else None)"
| "digits_from (c # d # s) =
     (if is_digit c then map_option ((#) c) (digits_from (d # s))
      else if c = CHR ''_'' \<and> is_digit d then digits_from (d # s)
      else None)"

definition digit_group :: "string \<Rightarrow> string option" where
  "digit_group s =
     (case s of
        [] \<Rightarrow> None
      | c # _ \<Rightarrow> if is_digit c then digits_from s else None)"

definition nat_of_digits :: "string \<Rightarrow> nat" where
  "nat_of_digits ds = foldl (\<lambda>n c. 10 * n + digit_value c) 0 ds"

text \<open>An optional sign: the factor and the rest of the text.\<close>

definition take_sign :: "string \<Rightarrow> int \<times> string" where
  "take_sign s =
     (case s of
        [] \<Rightarrow> (1, [])
      | c # r \<Rightarrow> if c = CHR ''-'' then (- 1, r) else if c = CHR ''+'' then (1, r) else (1, s))"

definition py_int :: "string \<Rightarrow> int option" where
  "py_int s =
     (let (sign, body) = take_sign (py_strip s)
      in map_option (\<lambda>ds. sign * int (nat_of_digits ds)) (digit_group body))"

text \<open>The text up to the first character with \<open>p\<close>, and the text after it if there is one.\<close>

definition split_first :: "(char \<Rightarrow> bool) \<Rightarrow> string \<Rightarrow> string \<times> string option" where
  "split_first p s =
     (takeWhile (\<lambda>c. \<not> p c) s,
      case dropWhile (\<lambda>c. \<not> p c) s of [] \<Rightarrow> None | _ # r \<Rightarrow> Some r)"

text \<open>The digits before and after the point of a mantissa.\<close>

definition mantissa :: "string \<Rightarrow> (string \<times> string) option" where
  "mantissa m =
     (case split_first (\<lambda>c. c = CHR ''.'') m of
        (ip, None) \<Rightarrow> map_option (\<lambda>ds. (ds, [])) (digit_group ip)
      | (ip, Some fp) \<Rightarrow>
          (if ip = [] \<and> fp = [] then None
           else
             (case (if ip = [] then Some [] else digit_group ip,
                    if fp = [] then Some [] else digit_group fp) of
                (Some ids, Some fds) \<Rightarrow> Some (ids, fds)
              | _ \<Rightarrow> None)))"

definition exponent_part :: "string option \<Rightarrow> int option" where
  "exponent_part e =
     (case e of
        None \<Rightarrow> Some 0
      | Some t \<Rightarrow>
          (let (sign, body) = take_sign t
           in map_option (\<lambda>ds. sign * int (nat_of_digits ds)) (digit_group body)))"

definition py_float :: "string \<Rightarrow> real option" where
  "py_float s =
     (let (sign, body) = take_sign (py_strip s);
          (m, e) = split_first (\<lambda>c. c = CHR ''e'' \<or> c = CHR ''E'') body
      in case (mantissa m, exponent_part e) of
           (Some (ids, fds), Some ex) \<Rightarrow>
             Some (real_of_int sign
                   * (real (nat_of_digits ids) + real (nat_of_digits fds) / 10 ^ length fds)
                   * (if 0 \<le> ex then 10 ^ nat ex else 1 / 10 ^ nat (- ex)))
         | _ \<Rightarrow> None)"

section \<open>Parsing\<close>

text \<open>
  \<open>_is_valid_term\<close>: \<open>None\<close> is the result \<open>False\<close>. The branch without a caret, inside
  its \<open>try\<close>: \<open>term[0]\<close> raises on the empty term, and so does \<open>float\<close> on what it cannot
  read; the bare \<open>except\<close> turns both into \<open>False\<close>. A term that is a minus and one more
  character is \<open>(-1, 1)\<close>; otherwise the term without its last character is read as the
  coefficient.
\<close>

definition no_caret_term :: "string \<Rightarrow> (real \<times> int) option" where
  "no_caret_term term =
     (case term of
        [] \<Rightarrow> None
      | c # rest \<Rightarrow>
          if c = CHR ''-'' then
            (if length rest = 1 then Some (- 1, 1)
             else map_option (\<lambda>coefficient. (- 1 * coefficient, 1)) (py_float (butlast rest)))
          else map_option (\<lambda>coefficient. (1 * coefficient, 1)) (py_float (butlast term)))"

text \<open>
  A term that \<open>float\<close> reads is a constant. Otherwise the term is split on the variable
  followed by a caret; an empty first piece stands for 1 and a lone minus for -1. Unless
  there are exactly two pieces, a term without a caret goes to the branch above and any
  other term is invalid. With two pieces, the first is read by \<open>float\<close> and the second by
  \<open>int\<close>.
\<close>

definition is_valid_term :: "string \<Rightarrow> string \<Rightarrow> (real \<times> int) option" where
  "is_valid_term term v =
     (case py_float term of
        Some single \<Rightarrow> Some (single, 0)
      | None \<Rightarrow>
          (let check = py_split (v @ ''^'') term
           in if length check \<noteq> 2 then
                (if CHR ''^'' \<notin> set term then no_caret_term term else None)
              else
                (case (if check ! 0 = '''' then Some 1
                       else if check ! 0 = ''-'' then Some (- 1)
                       else py_float (check ! 0)) of
                   None \<Rightarrow> None
                 | Some coefficient \<Rightarrow>
                     (case py_int (check ! 1) of
                        None \<Rightarrow> None
                      | Some exponent \<Rightarrow> Some (coefficient, exponent)))))"

text \<open>
  \<open>from_string\<close>. The text is prepared (a leading minus gets a \<open>0\<close> before it, the
  blanks go, and the chain of replacements puts \<open>+-\<close> for every minus) and split on
  \<open>+\<close>.
\<close>

definition normalize_signs :: "string \<Rightarrow> string" where
  "normalize_signs string =
     py_replace ''_'' ''+-''
       (py_replace ''-'' ''+-''
          (py_replace ''+-'' ''_''
             (py_replace '' '' '''' string)))"

definition terms_of :: "string \<Rightarrow> string list" where
  "terms_of string =
     py_split ''+'' (normalize_signs (if prefix ''-'' string then ''0'' @ string else string))"

text \<open>
  The dictionary \<open>coefficients\<close> of the source, from exponent to coefficient, as the
  association list \<open>table\<close>.
  \<open>coefficients.get(exponent)\<close> is false for a missing key and for a stored zero: then
  the coefficient is stored, otherwise added.
\<close>

definition add_term :: "real \<times> int \<Rightarrow> (int \<times> real) list \<Rightarrow> (int \<times> real) list" where
  "add_term t table =
     (let coefficient = fst t; exponent = snd t
      in case map_of table exponent of
           Some old \<Rightarrow>
             (if old \<noteq> 0 then AList.update exponent (old + coefficient) table
              else AList.update exponent coefficient table)
         | None \<Rightarrow> AList.update exponent coefficient table)"

text \<open>The loop over the terms: the first invalid term raises \<open>PolynomialParseError(term)\<close>.\<close>

fun accumulate :: "string \<Rightarrow> string list \<Rightarrow> (int \<times> real) list \<Rightarrow> exn + (int \<times> real) list" where
  "accumulate v [] table = Inr table"
| "accumulate v (term # terms) table =
     (case is_valid_term term v of
        None \<Rightarrow> Inl (PolynomialParseError term)
      | Some t \<Rightarrow> accumulate v terms (add_term t table))"

text \<open>
  The end of \<open>from_string\<close>: \<open>degree\<close> is the largest key, \<open>[0] * (degree + 1)\<close> has no
  entry when \<open>degree + 1\<close> is not positive, and each index with a true \<open>get\<close> receives its
  coefficient.
\<close>

definition final_coefficients :: "(int \<times> real) list \<Rightarrow> real list" where
  "final_coefficients table =
     (let degree = Max (set (map fst table))
      in map (\<lambda>i. case map_of table (int i) of
                     Some c \<Rightarrow> (if c \<noteq> 0 then c else 0)
                   | None \<Rightarrow> 0)
           [0..<nat (degree + 1)])"

definition from_string :: "string \<Rightarrow> string \<Rightarrow> exn + polynomial" where
  "from_string string v =
     (case accumulate v (terms_of string) [] of
        Inl e \<Rightarrow> Inl e
      | Inr table \<Rightarrow>
          (if table = [] then Inl ValueError
           else Inr (Polynomial (final_coefficients table) v)))"

section \<open>Notions for the proofs about parsing\<close>

text \<open>
  \<open>guarded p s\<close>: in \<open>s\<close>, read after the character \<open>p\<close>, every minus comes
  directly after a plus.
\<close>

fun guarded :: "char \<Rightarrow> string \<Rightarrow> bool" where
  "guarded p [] = True"
| "guarded p (c # s) = ((c = CHR ''-'' \<longrightarrow> p = CHR ''+'') \<and> guarded c s)"

text \<open>A term with no minus after its first character.\<close>

definition minus_only_first :: "string \<Rightarrow> bool" where
  "minus_only_first t \<longleftrightarrow> CHR ''-'' \<notin> set (tl t)"

text \<open>\<open>sep.join(pieces)\<close>.\<close>

fun py_join :: "string \<Rightarrow> string list \<Rightarrow> string" where
  "py_join sep [] = []"
| "py_join sep [x] = x"
| "py_join sep (x # y # r) = x @ sep @ py_join sep (y # r)"

section \<open>The polynomials a program can obtain\<close>

text \<open>
  \<open>produced P\<close>: \<open>P\<close> comes from a construction with at least one coefficient, or from
  an operation of the class that returned, applied to polynomials obtained in the same
  way. The label is the one field a client can assign.
\<close>

inductive produced :: "polynomial \<Rightarrow> bool" where
  constructed: "args \<noteq> [] \<Longrightarrow> Polynomial_init args v = Inr P \<Longrightarrow> produced P"
| relabelled: "produced P \<Longrightarrow> produced (P\<lparr>var := new\<rparr>)"
| copied: "produced P \<Longrightarrow> produced (copy P)"
| added_scalar: "produced P \<Longrightarrow> is_numeric s \<Longrightarrow> Polynomial_add P s = Inr R \<Longrightarrow> produced R"
| added: "produced P \<Longrightarrow> produced Q \<Longrightarrow> Polynomial_add P (PyPoly Q) = Inr R \<Longrightarrow> produced R"
| radded: "produced P \<Longrightarrow> is_numeric s \<Longrightarrow> Polynomial_radd P s = Inr R \<Longrightarrow> produced R"
| subtracted_scalar:
    "produced P \<Longrightarrow> is_numeric s \<Longrightarrow> Polynomial_sub P s = Inr R \<Longrightarrow> produced R"
| subtracted: "produced P \<Longrightarrow> produced Q \<Longrightarrow> Polynomial_sub P (PyPoly Q) = Inr R \<Longrightarrow> produced R"
| negated: "produced P \<Longrightarrow> produced (Polynomial_neg P)"
| multiplied_scalar:
    "produced P \<Longrightarrow> is_numeric s \<Longrightarrow> Polynomial_mul P s = Inr R \<Longrightarrow> produced R"
| multiplied: "produced P \<Longrightarrow> produced Q \<Longrightarrow> Polynomial_mul P (PyPoly Q) = Inr R \<Longrightarrow> produced R"
| rmultiplied: "produced P \<Longrightarrow> is_numeric s \<Longrightarrow> Polynomial_rmul P s = Inr R \<Longrightarrow> produced R"
| divided: "produced P \<Longrightarrow> Polynomial_truediv P other = Inr R \<Longrightarrow> produced R"
| powered: "produced P \<Longrightarrow> Polynomial_pow P n = Inr R \<Longrightarrow> produced R"
| differentiated: "produced P \<Longrightarrow> produced (derivative P)"
| integrated: "produced P \<Longrightarrow> produced (integral P constant)"
| composed: "produced P \<Longrightarrow> produced Q \<Longrightarrow> compose P (PyPoly Q) = Inr R \<Longrightarrow> produced R"
| rooted: "produced (from_roots args v)"
| parsed: "from_string string v = Inr P \<Longrightarrow> produced P"

section \<open>Basic facts of the constructor\<close>

lemma strip_leading_zeros_Cons:
  "strip_leading_zeros (c # cs) = c # rev (dropWhile (\<lambda>x. x = 0) (rev cs))"
  by (simp add: strip_leading_zeros_def)

lemma coefficients_Polynomial [simp]:
  "coefficients (Polynomial args v) = strip_leading_zeros args"
  by (simp add: Polynomial_def clean_def)

lemma var_Polynomial [simp]: "var (Polynomial args v) = v"
  by (simp add: Polynomial_def)

section \<open>Equality with a scalar\<close>

text \<open>
  C1. The spec has \<open>P == s\<close> true only for a constant polynomial whose coefficient is
  \<open>s\<close>, and \<open>Polynomial(5, 1) == 5\<close> false. \<open>__eq__\<close> compares the coefficient of degree 0
  alone and never looks at the degree: \<open>Polynomial(5, 1) == 5\<close> is true, although the
  polynomial has degree 1, while \<open>Polynomial(5) == 5\<close> is true as the spec says.
\<close>

theorem C1_scalar_equality_ignores_degree:
  "Polynomial_eq (Polynomial [5, 1] ''x'') (PyInt 5) = Inr True
   \<and> degree (Polynomial [5, 1] ''x'') = 1
   \<and> Polynomial_eq (Polynomial [5] ''x'') (PyInt 5) = Inr True"
  by (simp add: Polynomial_eq_def strip_leading_zeros_def degree_def Polynomial_len_def)

lemma strip_leading_zeros_id:
  assumes "xs \<noteq> []" and "last xs \<noteq> 0 \<or> xs = [0]"
  shows "strip_leading_zeros xs = xs"
proof (cases xs)
  case Nil
  with assms show ?thesis by simp
next
  case (Cons c cs)
  show ?thesis
  proof (cases "cs = []")
    case True
    with Cons show ?thesis by (simp add: strip_leading_zeros_def)
  next
    case False
    with assms Cons have "last cs \<noteq> 0" by auto
    with False have "hd (rev cs) \<noteq> 0" by (simp add: hd_rev)
    with False have "dropWhile (\<lambda>x. x = 0) (rev cs) = rev cs"
      by (cases "rev cs") auto
    with Cons show ?thesis by (simp add: strip_leading_zeros_def)
  qed
qed

lemma strip_leading_zeros_canonical:
  assumes "args \<noteq> []"
  shows "strip_leading_zeros args \<noteq> []
         \<and> (last (strip_leading_zeros args) \<noteq> 0 \<or> strip_leading_zeros args = [0])"
proof -
  from assms obtain c cs where args: "args = c # cs" by (cases args) auto
  define ys where "ys = dropWhile (\<lambda>x. x = 0) (rev cs)"
  have s: "strip_leading_zeros args = c # rev ys"
    by (simp add: args strip_leading_zeros_def ys_def)
  show ?thesis
  proof (cases "ys = []")
    case True
    with s show ?thesis by auto
  next
    case False
    then have "hd ys \<noteq> 0" unfolding ys_def by (metis (mono_tags, lifting) hd_dropWhile)
    with False s show ?thesis by (simp add: last_rev)
  qed
qed

lemma canonical_Polynomial: "args \<noteq> [] \<Longrightarrow> canonical (Polynomial args v)"
  using strip_leading_zeros_canonical [of args] by (simp add: canonical_def)

lemma canonical_strip_id: "canonical P \<Longrightarrow> strip_leading_zeros (coefficients P) = coefficients P"
  by (simp add: canonical_def strip_leading_zeros_id)

lemma Polynomial_eq_PyPoly [simp]:
  "Polynomial_eq P (PyPoly Q) = Inr (coefficients P = coefficients Q)"
  by (simp add: Polynomial_eq_def)

section \<open>Scalar division by zero\<close>




section \<open>Addition\<close>

lemma map_add_zip_commute:
  "map (\<lambda>(x, y). x + y) (zip xs ys) = map (\<lambda>(x, y). x + (y::real)) (zip ys xs)"
  by (induction xs ys rule: list_induct2') simp_all

lemma add_Polynomial_spec:
  "add_Polynomial P Q =
     Polynomial (spec_add_coefficients (coefficients P) (coefficients Q)) (var P)"
proof (cases "length (coefficients Q) < length (coefficients P)")
  case True
  define p where "p = coefficients P"
  define q where "q = coefficients Q"
  from True have lt: "length q < length p" by (simp add: p_def q_def)
  then have m: "max (length p) (length q) = length p" by simp
  from lt have d: "nat \<bar>int (length p) - int (length q)\<bar> = length p - length q" by arith
  have "map (\<lambda>(x, y). x + y) (zip (q @ replicate (length p - length q) 0) p)
        = map (\<lambda>(x, y). x + y) (zip p (q @ replicate (length p - length q) 0))"
    by (rule map_add_zip_commute)
  then have "spec_add_coefficients p q
        = map (\<lambda>(x, y). x + y) (zip (q @ replicate (length p - length q) 0) p)"
    by (simp add: spec_add_coefficients_def pad_to_def Let_def m)
  moreover have "add_Polynomial P Q
        = Polynomial (map (\<lambda>(x, y). x + y) (zip (q @ replicate (length p - length q) 0) p)) (var P)"
    using lt d by (simp add: add_Polynomial_def Polynomial_len_def Let_def p_def q_def)
  ultimately show ?thesis by (simp add: p_def q_def)
next
  case False
  define p where "p = coefficients P"
  define q where "q = coefficients Q"
  from False have le: "length p \<le> length q" by (simp add: p_def q_def)
  then have m: "max (length p) (length q) = length q" by simp
  from le have d: "nat \<bar>int (length p) - int (length q)\<bar> = length q - length p" by arith
  have "spec_add_coefficients p q
        = map (\<lambda>(x, y). x + y) (zip (p @ replicate (length q - length p) 0) q)"
    by (simp add: spec_add_coefficients_def pad_to_def Let_def m)
  moreover have "add_Polynomial P Q
        = Polynomial (map (\<lambda>(x, y). x + y) (zip (p @ replicate (length q - length p) 0) q)) (var P)"
    using le d by (simp add: add_Polynomial_def Polynomial_len_def Let_def p_def q_def)
  ultimately show ?thesis by (simp add: p_def q_def)
qed

lemma spec_add_coefficients_commute:
  "spec_add_coefficients a b = spec_add_coefficients b a"
proof -
  have m: "max (length a) (length b) = max (length b) (length a)" by simp
  show ?thesis
    unfolding spec_add_coefficients_def Let_def m
    by (rule map_add_zip_commute)
qed

lemma add_Polynomial_commute:
  "coefficients (add_Polynomial P Q) = coefficients (add_Polynomial Q P)"
proof -
  have "spec_add_coefficients (coefficients P) (coefficients Q)
        = spec_add_coefficients (coefficients Q) (coefficients P)"
    by (rule spec_add_coefficients_commute)
  then show ?thesis by (simp only: add_Polynomial_spec coefficients_Polynomial)
qed

lemma Polynomial_add_PyPoly [simp]:
  "Polynomial_add P (PyPoly Q) = Inr (add_Polynomial P Q)"
  by (simp add: Polynomial_add_def)

lemma Polynomial_add_zero:
  assumes "canonical P"
  shows "Polynomial_add P (PyInt 0) = Inr (Polynomial (coefficients P) ''x'')"
proof -
  from assms have "coefficients P \<noteq> []" by (simp add: canonical_def)
  then obtain c cs where cs: "coefficients P = c # cs"
    by (cases "coefficients P") simp_all
  show ?thesis by (simp add: Polynomial_add_def cs)
qed



section \<open>Derivative of the integral\<close>

lemma derivative_integrated:
  "map (\<lambda>(i, co). real i * co)
       (List.enumerate (Suc 0) (map (\<lambda>i. cs ! i / (real i + 1)) [0..<length cs])) = cs"
proof (rule nth_equalityI)
  show "length (map (\<lambda>(i, co). real i * co)
       (List.enumerate (Suc 0) (map (\<lambda>i. cs ! i / (real i + 1)) [0..<length cs]))) = length cs"
    by simp
next
  fix i
  assume "i < length (map (\<lambda>(i, co). real i * co)
       (List.enumerate (Suc 0) (map (\<lambda>i. cs ! i / (real i + 1)) [0..<length cs])))"
  then have i: "i < length cs" by simp
  have "(1 + real i) * (cs ! i / (real i + 1)) = cs ! i"
    by (simp add: add.commute)
  with i show "map (\<lambda>(i, co). real i * co)
       (List.enumerate (Suc 0) (map (\<lambda>i. cs ! i / (real i + 1)) [0..<length cs])) ! i = cs ! i"
    by (simp add: nth_enumerate_eq)
qed

lemma integral_coefficients_nonzero:
  assumes "cs \<noteq> []" and "last cs \<noteq> 0"
  shows "strip_leading_zeros (0 # map (\<lambda>i. cs ! i / (real i + 1)) [0..<length cs])
         = 0 # map (\<lambda>i. cs ! i / (real i + 1)) [0..<length cs]"
proof (rule strip_leading_zeros_id)
  from assms have "last (map (\<lambda>i. cs ! i / (real i + 1)) [0..<length cs]) \<noteq> 0"
    by (simp add: last_map last_conv_nth)
  with assms show "last (0 # map (\<lambda>i. cs ! i / (real i + 1)) [0..<length cs]) \<noteq> 0
      \<or> 0 # map (\<lambda>i. cs ! i / (real i + 1)) [0..<length cs] = [0]"
    by simp
qed simp

lemma derivative_integral_coefficients:
  assumes "canonical P"
  shows "coefficients (derivative (integral P 0)) = coefficients P"
proof (cases "coefficients P = [0]")
  case True
  then show ?thesis
    by (simp add: integral_def derivative_def strip_leading_zeros_def)
next
  case False
  define cs where "cs = coefficients P"
  from assms False have ne: "cs \<noteq> []" and l: "last cs \<noteq> 0"
    by (simp_all add: canonical_def cs_def)
  have i: "coefficients (integral P 0) = 0 # map (\<lambda>i. cs ! i / (real i + 1)) [0..<length cs]"
    using integral_coefficients_nonzero [OF ne l] by (simp add: integral_def cs_def)
  from ne have len: "length (coefficients (integral P 0)) \<noteq> 1" by (simp add: i)
  have "coefficients (derivative (integral P 0)) = strip_leading_zeros cs"
    using len
    by (simp add: derivative_def i enumerate_simps derivative_integrated [unfolded One_nat_def])
  also have "\<dots> = cs"
    using ne l by (simp add: strip_leading_zeros_id)
  finally show ?thesis by (simp add: cs_def)
qed



section \<open>Power\<close>

lemma pow_loop_funpow:
  "pow_loop k P result = ((\<lambda>R. mul_Polynomial R P) ^^ k) result"
proof (induction k arbitrary: result)
  case 0
  show ?case by simp
next
  case (Suc k)
  have "pow_loop (Suc k) P result = ((\<lambda>R. mul_Polynomial R P) ^^ k) (mul_Polynomial result P)"
    by (simp add: Suc.IH)
  also have "\<dots> = ((\<lambda>R. mul_Polynomial R P) ^^ Suc k) result"
    by (simp only: funpow_Suc_right o_apply)
  finally show ?case .
qed

lemma Polynomial_mul_PyPoly [simp]:
  "Polynomial_mul P (PyPoly Q) = Inr (mul_Polynomial P Q)"
  by (simp add: Polynomial_mul_def)

lemma Polynomial_pow_nonneg:
  "0 \<le> n \<Longrightarrow>
   Polynomial_pow P (PyInt n)
     = Inr (((\<lambda>R. mul_Polynomial R P) ^^ nat n) (Polynomial [1] (var P)))"
  by (simp add: Polynomial_pow_def pow_loop_funpow)

lemma Polynomial_pow_Suc:
  assumes "0 \<le> n"
  shows "Polynomial_pow P (PyInt (n + 1))
         = (case Polynomial_pow P (PyInt n) of
              Inl e \<Rightarrow> Inl e
            | Inr R \<Rightarrow> Polynomial_mul R (PyPoly P))"
proof -
  from assms have "nat (n + 1) = Suc (nat n)" by simp
  with assms show ?thesis by (simp add: Polynomial_pow_nonneg)
qed

text \<open>
  C8. For a non-negative \<open>int\<close> \<open>n\<close>, \<open>P ** n\<close> is the multiplication by \<open>P\<close> repeated
  \<open>n\<close> times from the constant polynomial 1, so each further power is the one before times
  \<open>P\<close> by \<open>__mul__\<close>, and \<open>P ** 0 == Polynomial(1)\<close>; a negative \<open>int\<close> and anything that is
  not an \<open>int\<close> (a \<open>float\<close>, even with an integer value, a string, a Polynomial) raises
  \<open>PolynomialDomainError\<close>, as \<open>Polynomial(1, 1) ** -1\<close> does.
\<close>

theorem C8_power:
  "(0 \<le> n \<longrightarrow>
      Polynomial_pow P (PyInt n)
        = Inr (((\<lambda>R. mul_Polynomial R P) ^^ nat n) (Polynomial [1] (var P)))
      \<and> Polynomial_pow P (PyInt (n + 1))
        = (case Polynomial_pow P (PyInt n) of
             Inl e \<Rightarrow> Inl e
           | Inr R \<Rightarrow> Polynomial_mul R (PyPoly P)))
   \<and> (\<exists>R. Polynomial_pow P (PyInt 0) = Inr R
         \<and> Polynomial_eq R (PyPoly (Polynomial [1] ''x'')) = Inr True)
   \<and> (n < 0 \<longrightarrow> (\<exists>msg. Polynomial_pow P (PyInt n) = Inl (PolynomialDomainError msg)))
   \<and> (\<not> (\<exists>k. m = PyInt k) \<longrightarrow>
        (\<exists>msg. Polynomial_pow P m = Inl (PolynomialDomainError msg)))
   \<and> (\<exists>msg. Polynomial_pow (Polynomial [1, 1] ''x'') (PyInt (- 1))
               = Inl (PolynomialDomainError msg))"
proof (intro conjI impI)
  assume "0 \<le> n"
  then show "Polynomial_pow P (PyInt n)
        = Inr (((\<lambda>R. mul_Polynomial R P) ^^ nat n) (Polynomial [1] (var P)))"
    by (rule Polynomial_pow_nonneg)
next
  assume "0 \<le> n"
  then show "Polynomial_pow P (PyInt (n + 1))
        = (case Polynomial_pow P (PyInt n) of
             Inl e \<Rightarrow> Inl e
           | Inr R \<Rightarrow> Polynomial_mul R (PyPoly P))"
    by (rule Polynomial_pow_Suc)
next
  show "\<exists>R. Polynomial_pow P (PyInt 0) = Inr R
         \<and> Polynomial_eq R (PyPoly (Polynomial [1] ''x'')) = Inr True"
    by (simp add: Polynomial_pow_def)
next
  assume "n < 0"
  then show "\<exists>msg. Polynomial_pow P (PyInt n) = Inl (PolynomialDomainError msg)"
    by (simp add: Polynomial_pow_def)
next
  assume "\<not> (\<exists>k. m = PyInt k)"
  then show "\<exists>msg. Polynomial_pow P m = Inl (PolynomialDomainError msg)"
    by (cases m) (simp_all add: Polynomial_pow_def)
next
  show "\<exists>msg. Polynomial_pow (Polynomial [1, 1] ''x'') (PyInt (- 1))
               = Inl (PolynomialDomainError msg)"
    by (simp add: Polynomial_pow_def)
qed

theorem C8_power_witness:
  "(0::int) \<le> 2
   \<and> Polynomial_pow (Polynomial [1, 1] ''x'') (PyInt 2) = Inr (Polynomial [1, 2, 1] ''x'')
   \<and> Polynomial_pow (Polynomial [1, 1] ''x'') (PyInt (2 + 1)) = Inr (Polynomial [1, 3, 3, 1] ''x'')
   \<and> \<not> (\<exists>k. PyFloat 2 = PyInt k)
   \<and> (\<exists>msg. Polynomial_pow (Polynomial [1, 1] ''x'') (PyFloat 2)
               = Inl (PolynomialDomainError msg))"
proof -
  have sq: "((\<lambda>R. mul_Polynomial R (Polynomial [1, 1] ''x'')) ^^ nat 2)
              (Polynomial [1] (var (Polynomial [1, 1] ''x''))) = Polynomial [1, 2, 1] ''x''"
    by code_simp
  have cu: "Polynomial_mul (Polynomial [1, 2, 1] ''x'') (PyPoly (Polynomial [1, 1] ''x''))
            = Inr (Polynomial [1, 3, 3, 1] ''x'')"
    by code_simp
  show ?thesis
    using sq cu C8_power [of 2 "Polynomial [1, 1] ''x''" "PyFloat 2"]
    by simp
qed

section \<open>Rendering\<close>

lemma spec_terms_text_snoc:
  "spec_terms_text fmt v (ts @ [t])
   = spec_terms_text fmt v ts @ (if ts = [] then spec_first fmt v t else spec_later fmt v t)"
  by (cases ts) (simp_all add: spec_terms_text_def)

lemma nonzero_terms_snoc:
  "nonzero_terms (cs @ [c]) = nonzero_terms cs @ (if c = 0 then [] else [(length cs, c)])"
  by (simp add: nonzero_terms_def enumerate_append_eq)

lemma str_step_eq:
  assumes "i < length (coefficients P)"
  shows "str_step fmt P i (spec_terms_text fmt (var P) ts, ts \<noteq> [])
         = (spec_terms_text fmt (var P)
              (ts @ (if coefficients P ! i = 0 then [] else [(i, coefficients P ! i)])),
            ts @ (if coefficients P ! i = 0 then [] else [(i, coefficients P ! i)]) \<noteq> [])"
  by (auto simp add: str_step_def Let_def spec_terms_text_snoc spec_first_def spec_later_def
      spec_term_def)

lemma str_loop:
  "k \<le> length (coefficients P) \<Longrightarrow>
   fold (str_step fmt P) [0..<k] ('''', False)
   = (spec_terms_text fmt (var P) (nonzero_terms (take k (coefficients P))),
      nonzero_terms (take k (coefficients P)) \<noteq> [])"
proof (induction k)
  case 0
  show ?case by (simp add: nonzero_terms_def spec_terms_text_def)
next
  case (Suc k)
  then have k: "k < length (coefficients P)" by simp
  then have t: "take (Suc k) (coefficients P) = take k (coefficients P) @ [coefficients P ! k]"
    by (simp add: take_Suc_conv_app_nth)
  have l: "length (take k (coefficients P)) = k" using k by simp
  show ?case
    using Suc.IH k str_step_eq [OF k, of fmt "nonzero_terms (take k (coefficients P))"]
    by (simp add: t nonzero_terms_snoc l del: take_Suc_conv_app_nth)
qed

lemma Polynomial_str_spec:
  "Polynomial_str fmt P =
     (if spec_terms_text fmt (var P) (nonzero_terms (coefficients P)) = ''''
      then ''0'' else spec_terms_text fmt (var P) (nonzero_terms (coefficients P)))"
  using str_loop [of "length (coefficients P)" P fmt]
  by (simp add: Polynomial_str_def Let_def)

lemma nonzero_terms_all_zero: "(\<forall>c \<in> set cs. c = 0) \<Longrightarrow> nonzero_terms cs = []"
  by (auto simp add: nonzero_terms_def filter_empty_conv in_set_enumerate_eq)

lemma nonzero_terms_some_nonzero: "(\<exists>c \<in> set cs. c \<noteq> 0) \<Longrightarrow> nonzero_terms cs \<noteq> []"
proof -
  assume "\<exists>c \<in> set cs. c \<noteq> 0"
  then obtain i where "i < length cs" and "cs ! i \<noteq> 0"
    by (auto simp add: in_set_conv_nth)
  then have "(i, cs ! i) \<in> set (nonzero_terms cs)"
    by (simp add: nonzero_terms_def in_set_enumerate_eq)
  then show ?thesis by auto
qed

lemma spec_term_not_empty:
  "(\<forall>r. fmt r \<noteq> '''') \<Longrightarrow> v \<noteq> '''' \<Longrightarrow> spec_term fmt v t \<noteq> ''''"
  by (simp add: spec_term_def)

lemma spec_terms_text_not_empty:
  "(\<forall>r. fmt r \<noteq> '''') \<Longrightarrow> v \<noteq> '''' \<Longrightarrow> ts \<noteq> [] \<Longrightarrow> spec_terms_text fmt v ts \<noteq> ''''"
  by (cases ts) (simp_all add: spec_terms_text_def spec_first_def spec_term_not_empty)

lemma str_nat_not_empty: "str_nat n \<noteq> ''''"
  by (subst str_nat.simps) simp

text \<open>
  C9. \<open>str(P)\<close> is the text of the spec's rules for the nonzero terms in ascending
  degree, and \<open>"0"\<close> when that text is empty: so it is for the all-zero polynomial. With
  a formatting of numbers that never gives the empty text and a label that is not empty,
  a polynomial with a nonzero coefficient renders as the text of its terms.
  (\<open>return result or "0"\<close> also gives \<open>"0"\<close> for the one other empty text, the
  polynomial \<open>x\<close> under the empty label.) \<open>str(Polynomial(2, -3, 1))\<close> is
  \<open>"2 - 3x + x^2"\<close>.
\<close>

theorem C9_rendering:
  "Polynomial_str fmt P =
     (if spec_terms_text fmt (var P) (nonzero_terms (coefficients P)) = ''''
      then ''0'' else spec_terms_text fmt (var P) (nonzero_terms (coefficients P)))
   \<and> ((\<forall>c \<in> set (coefficients P). c = 0) \<longrightarrow> Polynomial_str fmt P = ''0'')
   \<and> ((\<forall>r. fmt r \<noteq> '''') \<and> var P \<noteq> '''' \<and> (\<exists>c \<in> set (coefficients P). c \<noteq> 0) \<longrightarrow>
        Polynomial_str fmt P = spec_terms_text fmt (var P) (nonzero_terms (coefficients P)))
   \<and> Polynomial_str str_int_magnitude (Polynomial [2, - 3, 1] ''x'') = ''2 - 3x + x^2''"
proof (intro conjI impI)
  show "Polynomial_str fmt P =
     (if spec_terms_text fmt (var P) (nonzero_terms (coefficients P)) = ''''
      then ''0'' else spec_terms_text fmt (var P) (nonzero_terms (coefficients P)))"
    by (rule Polynomial_str_spec)
next
  assume "\<forall>c \<in> set (coefficients P). c = 0"
  then have "nonzero_terms (coefficients P) = []" by (rule nonzero_terms_all_zero)
  then show "Polynomial_str fmt P = ''0''"
    by (simp add: Polynomial_str_spec spec_terms_text_def)
next
  assume a: "(\<forall>r. fmt r \<noteq> '''') \<and> var P \<noteq> '''' \<and> (\<exists>c \<in> set (coefficients P). c \<noteq> 0)"
  then have "nonzero_terms (coefficients P) \<noteq> []" by (simp add: nonzero_terms_some_nonzero)
  with a have "spec_terms_text fmt (var P) (nonzero_terms (coefficients P)) \<noteq> ''''"
    by (simp add: spec_terms_text_not_empty)
  then show "Polynomial_str fmt P = spec_terms_text fmt (var P) (nonzero_terms (coefficients P))"
    by (simp add: Polynomial_str_spec)
next
  show "Polynomial_str str_int_magnitude (Polynomial [2, - 3, 1] ''x'') = ''2 - 3x + x^2''"
    by code_simp
qed

theorem C9_rendering_witness:
  "set (coefficients (Polynomial [0] ''x'')) = {0}
   \<and> Polynomial_str str_int_magnitude (Polynomial [0] ''x'') = ''0''
   \<and> (\<forall>r. str_int_magnitude r \<noteq> '''') \<and> var (Polynomial [- 1, 0, - 12] ''t'') \<noteq> ''''
   \<and> (\<exists>c \<in> set (coefficients (Polynomial [- 1, 0, - 12] ''t'')). c \<noteq> 0)
   \<and> Polynomial_str str_int_magnitude (Polynomial [- 1, 0, - 12] ''t'') = ''-1 - 12t^2''"
proof -
  have z: "\<forall>c \<in> set (coefficients (Polynomial [0] ''x'')). c = 0"
    by (simp add: strip_leading_zeros_def)
  have f: "\<forall>r. str_int_magnitude r \<noteq> ''''"
    by (simp add: str_int_magnitude_def str_nat_not_empty)
  have n: "\<exists>c \<in> set (coefficients (Polynomial [- 1, 0, - 12] ''t'')). c \<noteq> 0"
    by (simp add: strip_leading_zeros_def)
  have t: "spec_terms_text str_int_magnitude (var (Polynomial [- 1, 0, - 12] ''t''))
             (nonzero_terms (coefficients (Polynomial [- 1, 0, - 12] ''t''))) = ''-1 - 12t^2''"
    by code_simp
  have v: "var (Polynomial [- 1, 0, - 12] ''t'') \<noteq> ''''" by simp
  from z C9_rendering [of str_int_magnitude "Polynomial [0] ''x''"]
  have r0: "Polynomial_str str_int_magnitude (Polynomial [0] ''x'') = ''0''"
    by blast
  from f v n C9_rendering [of str_int_magnitude "Polynomial [- 1, 0, - 12] ''t''"]
  have "Polynomial_str str_int_magnitude (Polynomial [- 1, 0, - 12] ''t'')
        = spec_terms_text str_int_magnitude (var (Polynomial [- 1, 0, - 12] ''t''))
            (nonzero_terms (coefficients (Polynomial [- 1, 0, - 12] ''t'')))"
    by blast
  with t have r1:
    "Polynomial_str str_int_magnitude (Polynomial [- 1, 0, - 12] ''t'') = ''-1 - 12t^2''"
    by (simp only:)
  have z0: "set (coefficients (Polynomial [0] ''x'')) = {0}"
    by (simp add: strip_leading_zeros_def)
  from z0 r0 f v n r1 show ?thesis by blast
qed

section \<open>The terms of a parsed text\<close>

lemma guarded_weaken: "guarded p s \<Longrightarrow> p \<noteq> CHR ''+'' \<Longrightarrow> guarded q s"
  by (cases s) auto

lemma replace_minus_guarded: "guarded p (py_replace ''-'' ''+-'' s)"
proof (induction s arbitrary: p)
  case Nil
  show ?case by simp
next
  case (Cons c s)
  show ?case
  proof (cases "c = CHR ''-''")
    case True
    with Cons [of "CHR ''-''"] show ?thesis by simp
  next
    case False
    with Cons [of c] show ?thesis by simp
  qed
qed

lemma replace_underscore_guarded:
  "guarded p s \<Longrightarrow> guarded p (py_replace ''_'' ''+-'' s)"
proof (induction s arbitrary: p)
  case Nil
  show ?case by simp
next
  case (Cons c s)
  from Cons.prems have g: "guarded c s" by simp
  show ?case
  proof (cases "c = CHR ''_''")
    case True
    from g have "guarded c (py_replace ''_'' ''+-'' s)" by (rule Cons.IH)
    with True have "guarded (CHR ''-'') (py_replace ''_'' ''+-'' s)"
      by (auto intro: guarded_weaken)
    with True show ?thesis by simp
  next
    case False
    with Cons.prems Cons.IH [OF g] show ?thesis by simp
  qed
qed

lemma normalize_signs_guarded: "guarded p (normalize_signs s)"
  by (simp add: normalize_signs_def replace_underscore_guarded replace_minus_guarded)

lemma split_plus_minus_only_first:
  "guarded p u \<Longrightarrow> minus_only_first cur \<Longrightarrow> (p = CHR ''+'' \<longrightarrow> cur = [])
   \<Longrightarrow> \<forall>t \<in> set (split_from ''+'' cur u). minus_only_first t"
proof (induction u arbitrary: cur p)
  case Nil
  then show ?case by simp
next
  case (Cons c u)
  from Cons.prems have g: "guarded c u" by simp
  show ?case
  proof (cases "c = CHR ''+''")
    case True
    have "\<forall>t \<in> set (split_from ''+'' [] u). minus_only_first t"
      using g by (rule Cons.IH) (simp_all add: minus_only_first_def)
    with True Cons.prems show ?thesis by simp
  next
    case False
    have m: "minus_only_first (cur @ [c])"
    proof (cases "c = CHR ''-''")
      case True
      with Cons.prems have "cur = []" by simp
      then show ?thesis by (simp add: minus_only_first_def)
    next
      case False
      with Cons.prems show ?thesis by (cases cur) (simp_all add: minus_only_first_def)
    qed
    have "\<forall>t \<in> set (split_from ''+'' (cur @ [c]) u). minus_only_first t"
      using Cons.IH [OF g m] False by simp
    with False show ?thesis by simp
  qed
qed

lemma terms_of_minus_only_first: "t \<in> set (terms_of s) \<Longrightarrow> minus_only_first t"
  using split_plus_minus_only_first [OF normalize_signs_guarded, of "[]" "CHR ''a''"]
  by (simp add: terms_of_def py_split_def minus_only_first_def)

lemma split_from_not_empty: "split_from sep cur s \<noteq> []"
  by (induction sep cur s rule: split_from.induct) simp_all

lemma terms_of_not_empty: "terms_of s \<noteq> []"
  by (simp add: terms_of_def py_split_def split_from_not_empty)

lemma py_join_Cons: "xs \<noteq> [] \<Longrightarrow> py_join sep (x # xs) = x @ sep @ py_join sep xs"
  by (cases xs) simp_all

lemma py_join_split_from: "sep \<noteq> [] \<Longrightarrow> py_join sep (split_from sep cur s) = cur @ s"
proof (induction sep cur s rule: split_from.induct)
  case (1 sep cur)
  show ?case by simp
next
  case (2 sep cur c s)
  show ?case
  proof (cases "prefix sep (c # s)")
    case True
    then have "c # s = sep @ drop (length sep) (c # s)"
      by (metis append_eq_conv_conj prefixE)
    moreover have "py_join sep (split_from sep [] (drop (length sep) (c # s)))
                   = drop (length sep) (c # s)"
      using 2 True by simp
    ultimately show ?thesis
      using True 2(3) by (simp add: py_join_Cons split_from_not_empty)
  next
    case False
    with 2 show ?thesis by simp
  qed
qed

lemma py_split_two: "py_split (v @ ''^'') t = [a, b] \<Longrightarrow> t = a @ v @ ''^'' @ b"
  using py_join_split_from [of "v @ ''^''" "[]" t] by (simp add: py_split_def)

lemma set_py_strip: "set (py_strip s) \<subseteq> set s"
proof -
  have "set (py_strip s) \<subseteq> set (dropWhile is_space s)"
    unfolding py_strip_def by (metis set_dropWhileD set_rev subsetI)
  also have "\<dots> \<subseteq> set s" by (meson set_dropWhileD subsetI)
  finally show ?thesis .
qed

lemma py_int_negative: "py_int u = Some e \<Longrightarrow> e < 0 \<Longrightarrow> CHR ''-'' \<in> set u"
proof -
  assume a: "py_int u = Some e" and n: "e < 0"
  obtain sign body where t: "take_sign (py_strip u) = (sign, body)" by (cases "take_sign (py_strip u)")
  with a obtain ds where "e = sign * int (nat_of_digits ds)"
    by (auto simp add: py_int_def)
  with n have "sign < 0" by (simp add: mult_less_0_iff)
  with t have "CHR ''-'' \<in> set (py_strip u)"
    by (auto simp add: take_sign_def split: list.splits if_splits)
  with set_py_strip show ?thesis by blast
qed

lemma no_caret_term_exponent: "no_caret_term t = Some (c, e) \<Longrightarrow> e = 1"
  by (auto simp add: no_caret_term_def split: list.splits if_splits)

lemma is_valid_term_exponent:
  assumes "is_valid_term t v = Some (c, e)" and "minus_only_first t"
  shows "0 \<le> e"
proof (cases "py_float t")
  case (Some single)
  with assms show ?thesis by (simp add: is_valid_term_def)
next
  case None
  show ?thesis
  proof (cases "length (py_split (v @ ''^'') t) = 2")
    case False
    with None assms(1) have "no_caret_term t = Some (c, e)"
      by (simp add: is_valid_term_def Let_def split: if_splits)
    then have "e = 1" by (rule no_caret_term_exponent)
    then show ?thesis by simp
  next
    case True
    then obtain a b where ab: "py_split (v @ ''^'') t = [a, b]"
      by (cases "py_split (v @ ''^'') t" rule: list.exhaust)
         (auto simp add: length_Suc_conv)
    then have t: "t = a @ v @ ''^'' @ b" by (rule py_split_two)
    from None assms(1) ab have i: "py_int b = Some e"
      by (auto simp add: is_valid_term_def Let_def split: option.splits if_splits)
    have "set b \<subseteq> set (tl t)"
      by (subst t) (cases a; cases v; auto)
    with assms(2) have "CHR ''-'' \<notin> set b" by (auto simp add: minus_only_first_def)
    with i py_int_negative [of b e] show ?thesis by fastforce
  qed
qed

section \<open>The table of exponents\<close>

lemma length_mul_inner: "length (mul_inner a b i acc) = length acc"
proof -
  have "length (fold (\<lambda>j acc. acc[i + j := acc ! (i + j) + a ! i * b ! j]) js acc) = length acc"
    for js
    by (induction js arbitrary: acc) simp_all
  then show ?thesis by (simp add: mul_inner_def)
qed

lemma length_mul_coefficients: "length (mul_coefficients a b) = length a + length b - 1"
proof -
  have "length (fold (mul_inner a b) is acc) = length acc" for "is" acc
    by (induction "is" arbitrary: acc) (simp_all add: length_mul_inner)
  then show ?thesis by (simp add: mul_coefficients_def)
qed


lemma keys_update: "fst ` set (AList.update k x tab) = insert k (fst ` set tab)"
  using dom_update [of k x tab] by simp

lemma keys_add_term: "fst ` set (add_term (c, e) tab) = insert e (fst ` set tab)"
  by (simp add: add_term_def Let_def keys_update split: option.splits)

lemma add_term_not_empty: "add_term t tab \<noteq> []"
proof -
  have "fst ` set (add_term (fst t, snd t) tab) \<noteq> {}"
    by (simp only: keys_add_term) simp
  then show ?thesis by auto
qed

lemma accumulate_keys:
  "accumulate v ts tab = Inr tab' \<Longrightarrow> \<forall>t \<in> set ts. minus_only_first t
   \<Longrightarrow> \<forall>k \<in> fst ` set tab. 0 \<le> k \<Longrightarrow> \<forall>k \<in> fst ` set tab'. 0 \<le> k"
proof (induction ts arbitrary: tab)
  case Nil
  then show ?case by simp
next
  case (Cons t ts)
  from Cons.prems(1) obtain c e where ok: "is_valid_term t v = Some (c, e)"
    and rest: "accumulate v ts (add_term (c, e) tab) = Inr tab'"
    by (cases "is_valid_term t v") auto
  from ok Cons.prems(2) have "0 \<le> e" by (simp add: is_valid_term_exponent)
  with Cons.prems(3) have "\<forall>k \<in> fst ` set (add_term (c, e) tab). 0 \<le> k"
    by (simp add: keys_add_term)
  with rest Cons.prems(2) show ?case by (intro Cons.IH) simp_all
qed

lemma accumulate_not_empty:
  "accumulate v ts tab = Inr tab' \<Longrightarrow> ts \<noteq> [] \<or> tab \<noteq> [] \<Longrightarrow> tab' \<noteq> []"
proof (induction ts arbitrary: tab)
  case Nil
  then show ?case by simp
next
  case (Cons t ts)
  from Cons.prems(1) obtain p where "accumulate v ts (add_term p tab) = Inr tab'"
    by (cases "is_valid_term t v") auto
  then show ?case by (rule Cons.IH) (simp add: add_term_not_empty)
qed

lemma final_coefficients_not_empty:
  assumes "tab \<noteq> []" and "\<forall>k \<in> fst ` set tab. 0 \<le> k"
  shows "final_coefficients tab \<noteq> []"
proof -
  from assms(1) have "Max (set (map fst tab)) \<in> set (map fst tab)"
    by (intro Max_in) simp_all
  with assms(2) have "0 \<le> Max (set (map fst tab))" by auto
  then show ?thesis by (simp add: final_coefficients_def Let_def)
qed

lemma final_coefficients_negative:
  assumes "tab \<noteq> []" and "\<forall>k \<in> fst ` set tab. k < 0"
  shows "final_coefficients tab = []"
proof -
  from assms(1) have "Max (set (map fst tab)) \<in> set (map fst tab)"
    by (intro Max_in) simp_all
  with assms(2) have "Max (set (map fst tab)) < 0" by auto
  then show ?thesis by (simp add: final_coefficients_def Let_def)
qed

lemma from_string_arguments:
  assumes "accumulate v (terms_of s) [] = Inr tab"
  shows "tab \<noteq> [] \<and> final_coefficients tab \<noteq> []"
proof -
  from assms have ne: "tab \<noteq> []"
    by (rule accumulate_not_empty) (simp add: terms_of_not_empty)
  from assms have "\<forall>k \<in> fst ` set tab. 0 \<le> k"
    by (rule accumulate_keys) (simp_all add: terms_of_minus_only_first)
  with ne show ?thesis by (simp add: final_coefficients_not_empty)
qed

lemma from_string_canonical: "from_string s v = Inr P \<Longrightarrow> canonical P"
  by (auto simp add: from_string_def canonical_Polynomial
      split: sum.splits if_splits dest: from_string_arguments)

section \<open>Every operation keeps the canonical form\<close>

lemma canonical_not_empty: "canonical P \<Longrightarrow> coefficients P \<noteq> []"
  by (simp add: canonical_def)

lemma canonical_add_Polynomial:
  "canonical P \<Longrightarrow> canonical Q \<Longrightarrow> canonical (add_Polynomial P Q)"
proof -
  assume "canonical P" and "canonical Q"
  then have "length (spec_add_coefficients (coefficients P) (coefficients Q)) \<noteq> 0"
    by (simp add: spec_add_coefficients_def Let_def pad_to_def canonical_def)
  then show ?thesis
    unfolding add_Polynomial_spec by (intro canonical_Polynomial) simp
qed

lemma canonical_Polynomial_add:
  assumes "canonical P" and "\<forall>Q. other = PyPoly Q \<longrightarrow> canonical Q"
    and "Polynomial_add P other = Inr R"
  shows "canonical R"
proof (cases other)
  case (PyPoly Q)
  with assms show ?thesis by (auto simp add: Polynomial_add_def canonical_add_Polynomial)
next
  case (PyInt i)
  with assms show ?thesis
    by (auto simp add: Polynomial_add_def canonical_Polynomial split: list.splits)
next
  case (PyFloat r)
  with assms show ?thesis
    by (auto simp add: Polynomial_add_def canonical_Polynomial split: list.splits)
next
  case (PyStr s)
  with assms show ?thesis by (simp add: Polynomial_add_def)
qed

lemma canonical_Polynomial_neg: "canonical P \<Longrightarrow> canonical (Polynomial_neg P)"
  by (simp add: Polynomial_neg_def canonical_Polynomial canonical_not_empty)

lemma canonical_Polynomial_sub:
  assumes "canonical P" and "\<forall>Q. other = PyPoly Q \<longrightarrow> canonical Q"
    and "Polynomial_sub P other = Inr R"
  shows "canonical R"
proof -
  from assms(3) obtain negated where n: "py_neg other = Inr negated"
    and a: "Polynomial_add P negated = Inr R"
    by (auto simp add: Polynomial_sub_def split: sum.splits)
  from n assms(2) have "\<forall>Q. negated = PyPoly Q \<longrightarrow> canonical Q"
    by (cases other) (auto simp add: canonical_Polynomial_neg)
  with assms(1) a show ?thesis by (intro canonical_Polynomial_add [of P negated R]) simp_all
qed

lemma canonical_mul_Polynomial:
  assumes "canonical P" and "canonical Q"
  shows "canonical (mul_Polynomial P Q)"
proof -
  from assms have "0 < length (coefficients P)" and "0 < length (coefficients Q)"
    by (simp_all add: canonical_def)
  then have "0 < length (coefficients P) + length (coefficients Q) - 1" by arith
  then have "0 < length (mul_coefficients (coefficients P) (coefficients Q))"
    by (simp only: length_mul_coefficients)
  then have "mul_coefficients (coefficients P) (coefficients Q) \<noteq> []" by auto
  then show ?thesis
    unfolding mul_Polynomial_def by (rule canonical_Polynomial)
qed

lemma canonical_mul_scalar: "canonical P \<Longrightarrow> canonical (mul_scalar P s)"
  by (simp add: mul_scalar_def canonical_Polynomial canonical_not_empty)

lemma canonical_Polynomial_mul:
  assumes "canonical P" and "\<forall>Q. other = PyPoly Q \<longrightarrow> canonical Q"
    and "Polynomial_mul P other = Inr R"
  shows "canonical R"
  using assms
  by (cases other) (auto simp add: Polynomial_mul_def canonical_mul_scalar canonical_mul_Polynomial)

lemma canonical_Polynomial_truediv:
  "canonical P \<Longrightarrow> Polynomial_truediv P other = Inr R \<Longrightarrow> canonical R"
  by (auto simp add: Polynomial_truediv_def canonical_Polynomial canonical_not_empty
      split: if_splits)

lemma canonical_pow_loop:
  "canonical P \<Longrightarrow> canonical result \<Longrightarrow> canonical (pow_loop k P result)"
  by (induction k arbitrary: result) (simp_all add: canonical_mul_Polynomial)

lemma canonical_Polynomial_pow:
  "canonical P \<Longrightarrow> Polynomial_pow P n = Inr R \<Longrightarrow> canonical R"
  by (cases n) (auto simp add: Polynomial_pow_def canonical_pow_loop canonical_Polynomial
      split: if_splits)

lemma canonical_copy: "canonical P \<Longrightarrow> canonical (copy P)"
  by (simp add: copy_def canonical_Polynomial canonical_not_empty)

lemma canonical_derivative:
  assumes "canonical P"
  shows "canonical (derivative P)"
proof (cases "length (coefficients P) = 1")
  case True
  then show ?thesis by (simp add: derivative_def canonical_Polynomial)
next
  case False
  define ds where "ds = tl (map (\<lambda>(i, co). real i * co) (List.enumerate 0 (coefficients P)))"
  from assms have "0 < length (coefficients P)" by (simp add: canonical_def)
  with False have "2 \<le> length (coefficients P)" by arith
  moreover have "length ds = length (coefficients P) - 1" by (simp add: ds_def)
  ultimately have "length ds \<noteq> 0" by arith
  then have "ds \<noteq> []" by (simp only: length_0_conv not_False_eq_True)
  then have "canonical (Polynomial ds (var P))" by (rule canonical_Polynomial)
  with False show ?thesis by (simp add: derivative_def ds_def)
qed

lemma canonical_integral: "canonical (integral P constant)"
  by (simp add: integral_def canonical_Polynomial)

lemma canonical_compose_Polynomial:
  assumes "canonical Q"
  shows "canonical (compose_Polynomial P Q)"
proof -
  have step: "canonical result \<Longrightarrow> canonical (compose_step P Q i result)" for i result
    by (simp add: compose_step_def canonical_add_Polynomial canonical_mul_scalar
        canonical_pow_loop canonical_Polynomial assms)
  have "canonical result \<Longrightarrow> canonical (fold (compose_step P Q) is result)" for "is" result
    by (induction "is" arbitrary: result) (simp_all add: step)
  then show ?thesis by (simp add: compose_Polynomial_def canonical_Polynomial)
qed

lemma canonical_from_roots: "canonical (from_roots args v)"
proof -
  have "canonical result \<Longrightarrow>
        canonical (fold (\<lambda>root result. mul_Polynomial result (Polynomial [- root, 1] v)) args result)"
    for result
    by (induction args arbitrary: result)
       (simp_all add: canonical_mul_Polynomial canonical_Polynomial)
  then show ?thesis by (simp add: from_roots_def canonical_Polynomial)
qed

lemma is_numeric_not_poly: "is_numeric s \<Longrightarrow> \<forall>Q. s = PyPoly Q \<longrightarrow> canonical Q"
  by (cases s) simp_all



section \<open>Terms without a caret\<close>

text \<open>
  C3. The spec has a term \<open><coeff>var\<close> without its coefficient stand for 1, so that
  \<open>from_string("x")\<close> is \<open>Polynomial(0, 1)\<close>. In \<open>_is_valid_term\<close> the branch without a
  caret reads the term without its last character with \<open>float\<close>; for the bare \<open>x\<close> that
  is \<open>float("")\<close>, which raises, and the term is invalid: \<open>from_string("x")\<close> raises
  \<open>PolynomialParseError("x")\<close>. No term of one character gets through that branch. The
  same branch returns \<open>(-1, 1)\<close> for the lone minus before a variable and reads \<open>3x\<close>.
\<close>

theorem C3_bare_variable_rejected:
  "is_valid_term ''x'' ''x'' = None
   \<and> from_string ''x'' ''x'' = Inl (PolynomialParseError ''x'')
   \<and> no_caret_term [c] = None
   \<and> is_valid_term ''-x'' ''x'' = Some (- 1, 1)
   \<and> is_valid_term ''3x'' ''x'' = Some (3, 1)"
proof (intro conjI)
  show "is_valid_term ''x'' ''x'' = None" by code_simp
  show "from_string ''x'' ''x'' = Inl (PolynomialParseError ''x'')" by code_simp
  have "py_float '''' = None" by code_simp
  then show "no_caret_term [c] = None" by (simp add: no_caret_term_def)
  show "is_valid_term ''-x'' ''x'' = Some (- 1, 1)" by code_simp
  show "is_valid_term ''3x'' ''x'' = Some (3, 1)" by code_simp
qed

lemma accumulate_first_invalid:
  "\<forall>t \<in> set valid. is_valid_term t v \<noteq> None \<Longrightarrow> is_valid_term bad v = None
   \<Longrightarrow> accumulate v (valid @ bad # rest) tab = Inl (PolynomialParseError bad)"
  by (induction valid arbitrary: tab) auto

text \<open>
  C7. The spec has every term outside the three shapes raise \<open>PolynomialParseError\<close>
  with the term. \<open>from_string("x^^2")\<close> does. But the branch without a caret never
  looks at the last character of the term: \<open>3\<close> followed by any character is read as
  \<open>(3, 1)\<close>, so \<open>3y\<close> is accepted under the variable \<open>x\<close> and \<open>from_string("3y")\<close>
  returns \<open>Polynomial(0, 3)\<close>. (The branch with a caret splits on the variable and
  rejects \<open>3y^2\<close>.)
\<close>

theorem C7_unchecked_variable:
  "is_valid_term ''3y'' ''x'' = Some (3, 1)
   \<and> from_string ''3y'' ''x'' = Inr (Polynomial [0, 3] ''x'')
   \<and> no_caret_term [CHR ''3'', c] = Some (3, 1)
   \<and> is_valid_term ''3y^2'' ''x'' = None
   \<and> from_string ''x^^2'' ''x'' = Inl (PolynomialParseError ''x^^2'')"
proof (intro conjI)
  show "is_valid_term ''3y'' ''x'' = Some (3, 1)" by code_simp
  show "from_string ''3y'' ''x'' = Inr (Polynomial [0, 3] ''x'')" by code_simp
  have "py_float ''3'' = Some 3" by code_simp
  then show "no_caret_term [CHR ''3'', c] = Some (3, 1)" by (simp add: no_caret_term_def)
  show "is_valid_term ''3y^2'' ''x'' = None" by code_simp
  show "from_string ''x^^2'' ''x'' = Inl (PolynomialParseError ''x^^2'')" by code_simp
qed

section \<open>Negative exponents\<close>

lemma digit_char_is_digit: "d < 10 \<Longrightarrow> is_digit (digit_char d)"
proof -
  assume "d < 10"
  then have "d \<in> {0, 1, 2, 3, 4, 5, 6, 7, 8, 9}" by auto
  then show ?thesis by (auto simp add: is_digit_def digit_char_def)
qed

lemma digit_value_digit_char: "d < 10 \<Longrightarrow> digit_value (digit_char d) = d"
proof -
  assume "d < 10"
  then have "d \<in> {0, 1, 2, 3, 4, 5, 6, 7, 8, 9}" by auto
  then show ?thesis by (auto simp add: digit_value_def digit_char_def)
qed

lemma str_nat_digits: "\<forall>c \<in> set (str_nat n). is_digit c"
proof (induction n rule: str_nat.induct)
  case (1 n)
  show ?case
  proof (cases "n < 10")
    case True
    then show ?thesis by (subst str_nat.simps) (simp add: digit_char_is_digit)
  next
    case False
    with 1 show ?thesis by (subst str_nat.simps) (simp add: digit_char_is_digit)
  qed
qed

lemma nat_of_digits_snoc: "nat_of_digits (ds @ [c]) = 10 * nat_of_digits ds + digit_value c"
  by (simp add: nat_of_digits_def)

lemma nat_of_digits_str_nat: "nat_of_digits (str_nat n) = n"
proof (induction n rule: str_nat.induct)
  case (1 n)
  show ?case
  proof (cases "n < 10")
    case True
    then show ?thesis
      by (subst str_nat.simps) (simp add: nat_of_digits_def digit_value_digit_char)
  next
    case False
    with 1 show ?thesis
      by (subst str_nat.simps) (simp add: nat_of_digits_snoc digit_value_digit_char)
  qed
qed

lemma digits_from_digits: "\<forall>c \<in> set ds. is_digit c \<Longrightarrow> digits_from ds = Some ds"
  by (induction ds rule: digits_from.induct) simp_all

lemma digit_group_digits: "ds \<noteq> [] \<Longrightarrow> \<forall>c \<in> set ds. is_digit c \<Longrightarrow> digit_group ds = Some ds"
  by (cases ds) (simp_all add: digit_group_def digits_from_digits)

lemma is_digit_not_space: "is_digit c \<Longrightarrow> \<not> is_space c"
  by (auto simp add: is_digit_def is_space_def)

lemma py_strip_minus_digits:
  assumes "ds \<noteq> []" and "\<forall>c \<in> set ds. is_digit c"
  shows "py_strip (CHR ''-'' # ds) = CHR ''-'' # ds"
proof -
  have "\<not> is_space (CHR ''-'')" by (simp add: is_space_def)
  then have a: "dropWhile is_space (CHR ''-'' # ds) = CHR ''-'' # ds" by simp
  from assms obtain ys y where ds: "ds = ys @ [y]" and y: "\<not> is_space y"
    by (cases ds rule: rev_cases) (auto simp add: is_digit_not_space)
  then have "dropWhile is_space (rev (CHR ''-'' # ds)) = rev (CHR ''-'' # ds)" by simp
  with a show ?thesis by (simp only: py_strip_def rev_rev_ident)
qed

lemma py_int_minus_str_nat: "py_int (CHR ''-'' # str_nat n) = Some (- int n)"
  by (simp add: py_int_def py_strip_minus_digits str_nat_digits str_nat_not_empty take_sign_def
      digit_group_digits nat_of_digits_str_nat)

lemma in_dropWhile: "c \<in> set s \<Longrightarrow> \<not> P c \<Longrightarrow> c \<in> set (dropWhile P s)"
  by (induction s) auto

lemma in_py_strip: "c \<in> set s \<Longrightarrow> \<not> is_space c \<Longrightarrow> c \<in> set (py_strip s)"
  by (simp add: py_strip_def in_dropWhile)

lemma digits_from_chars:
  "digits_from g = Some ds \<Longrightarrow> \<forall>c \<in> set g. is_digit c \<or> c = CHR ''_''"
  by (induction g arbitrary: ds rule: digits_from.induct) (auto split: if_splits)

lemma digit_group_no_caret: "digit_group g = Some ds \<Longrightarrow> CHR ''^'' \<notin> set g"
proof
  assume a: "digit_group g = Some ds" and c: "CHR ''^'' \<in> set g"
  from a have "digits_from g = Some ds"
    by (auto simp add: digit_group_def split: list.splits if_splits)
  with c have "is_digit (CHR ''^'') \<or> CHR ''^'' = CHR ''_''"
    using digits_from_chars by blast
  then show False by (simp add: is_digit_def)
qed

lemma split_first_parts:
  "split_first p s = (a, b) \<Longrightarrow>
   (b = None \<and> s = a) \<or> (\<exists>x r. b = Some r \<and> s = a @ x # r \<and> p x)"
proof -
  assume sf: "split_first p s = (a, b)"
  have id: "s = takeWhile (\<lambda>c. \<not> p c) s @ dropWhile (\<lambda>c. \<not> p c) s" by simp
  show ?thesis
  proof (cases "dropWhile (\<lambda>c. \<not> p c) s")
    case Nil
    with sf id show ?thesis by (auto simp add: split_first_def)
  next
    case (Cons x r)
    then have "p x" using hd_dropWhile [of "\<lambda>c. \<not> p c" s] by auto
    with sf id Cons show ?thesis by (auto simp add: split_first_def)
  qed
qed

lemma mantissa_no_caret: "mantissa m = Some q \<Longrightarrow> CHR ''^'' \<notin> set m"
proof -
  assume a: "mantissa m = Some q"
  obtain ip fo where sf: "split_first (\<lambda>c. c = CHR ''.'') m = (ip, fo)"
    by (cases "split_first (\<lambda>c. c = CHR ''.'') m")
  from split_first_parts [OF sf] show ?thesis
  proof
    assume "fo = None \<and> m = ip"
    with a sf show ?thesis by (auto simp add: mantissa_def dest: digit_group_no_caret)
  next
    assume "\<exists>x r. fo = Some r \<and> m = ip @ x # r \<and> x = CHR ''.''"
    then obtain fp where fo: "fo = Some fp" and m: "m = ip @ CHR ''.'' # fp" by auto
    from a sf fo have "ip = [] \<or> (\<exists>ds. digit_group ip = Some ds)"
      by (auto simp add: mantissa_def split: if_splits option.splits)
    then have i: "CHR ''^'' \<notin> set ip" by (auto dest: digit_group_no_caret)
    from a sf fo have "fp = [] \<or> (\<exists>ds. digit_group fp = Some ds)"
      by (auto simp add: mantissa_def split: if_splits option.splits)
    then have "CHR ''^'' \<notin> set fp" by (auto dest: digit_group_no_caret)
    with i m show ?thesis by simp
  qed
qed

lemma take_sign_no_caret:
  "take_sign t = (sign, body) \<Longrightarrow> CHR ''^'' \<notin> set body \<Longrightarrow> CHR ''^'' \<notin> set t"
  by (auto simp add: take_sign_def split: list.splits if_splits)

lemma exponent_part_no_caret: "exponent_part (Some t) = Some ex \<Longrightarrow> CHR ''^'' \<notin> set t"
proof -
  assume a: "exponent_part (Some t) = Some ex"
  obtain sign body where ts: "take_sign t = (sign, body)" by (cases "take_sign t")
  with a have "\<exists>ds. digit_group body = Some ds" by (auto simp add: exponent_part_def)
  then have "CHR ''^'' \<notin> set body" by (auto dest: digit_group_no_caret)
  with ts show ?thesis by (rule take_sign_no_caret)
qed

lemma py_float_no_caret: "CHR ''^'' \<in> set s \<Longrightarrow> py_float s = None"
proof (rule ccontr)
  assume c: "CHR ''^'' \<in> set s" and "py_float s \<noteq> None"
  then obtain r where r: "py_float s = Some r" by auto
  obtain sign body where ts: "take_sign (py_strip s) = (sign, body)"
    by (cases "take_sign (py_strip s)")
  obtain m e where sf: "split_first (\<lambda>c. c = CHR ''e'' \<or> c = CHR ''E'') body = (m, e)"
    by (cases "split_first (\<lambda>c. c = CHR ''e'' \<or> c = CHR ''E'') body")
  from r ts sf obtain q ex where mq: "mantissa m = Some q" and eq: "exponent_part e = Some ex"
    by (auto simp add: py_float_def split: option.splits)
  from mq have nm: "CHR ''^'' \<notin> set m" by (rule mantissa_no_caret)
  have "CHR ''^'' \<notin> set body"
    using split_first_parts [OF sf]
  proof
    assume "e = None \<and> body = m"
    with nm show ?thesis by simp
  next
    assume "\<exists>x r. e = Some r \<and> body = m @ x # r \<and> (x = CHR ''e'' \<or> x = CHR ''E'')"
    then obtain x t where e: "e = Some t" and b: "body = m @ x # t"
      and x: "x = CHR ''e'' \<or> x = CHR ''E''" by auto
    from eq e have "CHR ''^'' \<notin> set t" by (auto dest: exponent_part_no_caret)
    with nm b x show ?thesis by auto
  qed
  with ts have "CHR ''^'' \<notin> set (py_strip s)" by (rule take_sign_no_caret)
  moreover have "\<not> is_space (CHR ''^'')" by (simp add: is_space_def)
  ultimately show False using c in_py_strip by blast
qed

lemma split_from_prefix:
  "sep \<noteq> [] \<Longrightarrow> split_from sep cur (sep @ rest) = cur # split_from sep [] rest"
  by (cases sep) simp_all

lemma split_from_no_separator:
  "x \<in> set sep \<Longrightarrow> x \<notin> set s \<Longrightarrow> split_from sep cur s = [cur @ s]"
proof (induction s arbitrary: cur)
  case Nil
  show ?case by simp
next
  case (Cons c s)
  have "\<not> prefix sep (c # s)"
  proof
    assume "prefix sep (c # s)"
    then have "set sep \<subseteq> set (c # s)" by (rule set_mono_prefix)
    with Cons.prems show False by auto
  qed
  moreover from Cons have "split_from sep (cur @ [c]) s = [(cur @ [c]) @ s]" by simp
  ultimately show ?case by simp
qed

lemma is_digit_caret: "\<not> is_digit (CHR ''^'')"
  by (simp add: is_digit_def)

lemma is_valid_term_negative_exponent:
  "is_valid_term (v @ ''^'' @ CHR ''-'' # str_nat n) v = Some (1, - int n)"
proof -
  define t where "t = v @ ''^'' @ CHR ''-'' # str_nat n"
  have f: "py_float t = None" by (rule py_float_no_caret) (simp add: t_def)
  have nc: "CHR ''^'' \<notin> set (CHR ''-'' # str_nat n)"
    using str_nat_digits [of n] is_digit_caret by auto
  have "py_split (v @ ''^'') t = [] # split_from (v @ ''^'') [] (CHR ''-'' # str_nat n)"
    using split_from_prefix [of "v @ ''^''" "[]" "CHR ''-'' # str_nat n"]
    by (simp add: py_split_def t_def)
  also have "split_from (v @ ''^'') [] (CHR ''-'' # str_nat n) = [[] @ CHR ''-'' # str_nat n]"
    by (rule split_from_no_separator [of "CHR ''^''"]) (use nc in simp_all)
  finally have s: "py_split (v @ ''^'') t = ['''', CHR ''-'' # str_nat n]" by simp
  show ?thesis
    unfolding t_def [symmetric]
    by (simp add: is_valid_term_def f s py_int_minus_str_nat)
qed

text \<open>
  C10, as the source has it. Called on its own, \<open>_is_valid_term\<close> accepts the variable,
  a caret, a minus and digits, and returns the coefficient 1 and the negative exponent;
  and the end of \<open>from_string\<close> gives the empty list for a table whose exponents are all
  negative. But \<open>from_string\<close> puts a plus before every minus and splits on the plus:
  no term it reads has a minus after its first character, every exponent it accepts is
  at least 0, and the list it hands to the constructor is never empty.
\<close>

theorem C10_negative_exponent:
  "is_valid_term (v @ ''^'' @ CHR ''-'' # str_nat n) v = Some (1, - int n)
   \<and> (tab \<noteq> [] \<and> (\<forall>k \<in> fst ` set tab. k < 0) \<longrightarrow> final_coefficients tab = [])
   \<and> (t \<in> set (terms_of s) \<and> is_valid_term t v = Some (c, e) \<longrightarrow> 0 \<le> e)
   \<and> (accumulate v (terms_of s) [] = Inr tab' \<longrightarrow> final_coefficients tab' \<noteq> [])"
proof (intro conjI impI)
  show "is_valid_term (v @ ''^'' @ CHR ''-'' # str_nat n) v = Some (1, - int n)"
    by (rule is_valid_term_negative_exponent)
next
  assume "tab \<noteq> [] \<and> (\<forall>k \<in> fst ` set tab. k < 0)"
  then show "final_coefficients tab = []" by (simp add: final_coefficients_negative)
next
  assume a: "t \<in> set (terms_of s) \<and> is_valid_term t v = Some (c, e)"
  then have "minus_only_first t" using terms_of_minus_only_first by blast
  with a show "0 \<le> e" using is_valid_term_exponent by blast
next
  assume "accumulate v (terms_of s) [] = Inr tab'"
  then show "final_coefficients tab' \<noteq> []" by (simp add: from_string_arguments)
qed

theorem C10_negative_exponent_witness:
  "is_valid_term ''x^-1'' ''x'' = Some (1, - 1)
   \<and> [(- 1, 1)] \<noteq> ([] :: (int \<times> real) list)
   \<and> fst ` set [(- 1 :: int, 1 :: real)] = {- 1}
   \<and> final_coefficients [(- 1, 1)] = []
   \<and> ''x^2'' \<in> set (terms_of ''x^2 - 3x + 2'') \<and> is_valid_term ''x^2'' ''x'' = Some (1, 2)
   \<and> (0 :: int) \<le> 2
   \<and> accumulate ''x'' (terms_of ''x^2 - 3x + 2'') [] = Inr [(2, 1), (1, - 3), (0, 2)]
   \<and> final_coefficients [(2, 1), (1, - 3), (0, 2)] \<noteq> []"
proof -
  have n: "str_nat 1 = ''1''" by code_simp
  have t: "''x^2'' \<in> set (terms_of ''x^2 - 3x + 2'')" by code_simp
  have i: "is_valid_term ''x^2'' ''x'' = Some (1, 2)" by code_simp
  have a: "accumulate ''x'' (terms_of ''x^2 - 3x + 2'') [] = Inr [(2, 1), (1, - 3), (0, 2)]"
    by code_simp
  note w = C10_negative_exponent [of "''x''" 1 "[(- 1, 1)]" "''x^2''" "''x^2 - 3x + 2''" 1 2
      "[(2, 1), (1, - 3), (0, 2)]"]
  from w n have "is_valid_term ''x^-1'' ''x'' = Some (1, - 1)" by simp
  moreover from w have "final_coefficients [(- 1, 1)] = []" by simp
  moreover from w t i have "(0 :: int) \<le> 2" by simp
  moreover from w a have "final_coefficients [(2, 1), (1, - 3), (0, 2)] \<noteq> []" by blast
  ultimately show ?thesis using t i a by simp
qed

theorem C10_negative_exponent_counterexample:
  "terms_of ''x^-1'' = [''x^'', ''-1'']
   \<and> from_string ''x^-1'' ''x'' = Inl (PolynomialParseError ''x^'')"
proof (intro conjI)
  show "terms_of ''x^-1'' = [''x^'', ''-1'']" by code_simp
  show "from_string ''x^-1'' ''x'' = Inl (PolynomialParseError ''x^'')" by code_simp
qed

end
